theory Spec2Isabelle
  imports Main "HOL-Library.AList"
begin

section \<open>The reactive core of flamingo.js\<close>

text \<open>
  A shallow embedding of the template engine (class \<open>Template\<close>), the property observer
  (class \<open>Observer\<close>), the event emitter (class \<open>EventEmitter\<close>) and the component
  (class \<open>Kiwi\<close>) of \<^verbatim>\<open>src/flamingo.js\<close>.

  Conventions of the embedding:
  \<^item> a JavaScript string is a list of code units below 256 (\<^typ>\<open>string\<close>);
  \<^item> a number is \<open>NaN\<close> or an integer that a double holds exactly and prints in decimal
    digits (its magnitude is below \<^verbatim>\<open>2^53\<close>); objects live in a store and are named by
    address, so that \<open>===\<close> on objects is identity of addresses;
  \<^item> a thrown exception is the left injection of a sum; the depth of the call stack that is
    left to a recursive traversal is a parameter, and running out of it is the
    \<open>RangeError\<close> of the engine;
  \<^item> user code (watcher callbacks, lifecycle hooks, computed getters, template expressions) is
    opaque: a call is recorded in a trace, a getter or an expression is a function of the data
    it reads, and none of them writes to the component;
  \<^item> containers are plain objects (no arrays, no own \<open>toString\<close>);
  \<^item> the component is a record of the members that the classes give it, beside a table of
    the members that the constructor and \<open>$set\<close> add under the names of methods, computed
    entries and data keys. Where the program defines such a member under the name of a
    member of the classes (\<open>el\<close>, \<open>data\<close>, \<open>_events\<close>, \<open>emit\<close>, ...), it replaces that
    member; the record cannot hold the component this makes, and the embedding stops there
    with the outcome \<open>Unrepresented\<close>.
\<close>

subsection \<open>Values\<close>

type_synonym addr = nat

text \<open>
  \<open>VNative n\<close> is the built-in function that every plain object inherits under the name
  \<open>n\<close> from \<open>Object.prototype\<close>; \<open>VProto\<close> is \<open>Object.prototype\<close> itself (what
  \<open>obj['__proto__']\<close> reads).
\<close>

datatype jsval =
    VUndefined
  | VNull
  | VBool bool
  | VNum int
  | VNaN
  | VStr string
  | VRef addr
  | VNative string
  | VProto

text \<open>
  What a call ends with when it gives no result in this embedding: an exception thrown, or
  \<open>Unrepresented k\<close>, which is no exception of the program: the program has defined a
  member named \<open>k\<close> on the component instance in place of a member of its classes and runs
  on, in a state that is outside the embedding.
\<close>

datatype js_error = TypeError string | RangeError string | Unrepresented string

text \<open>The operator \<open>===\<close>: equality of values, but \<open>NaN\<close> is not equal to itself.\<close>

definition strict_eq :: "jsval \<Rightarrow> jsval \<Rightarrow> bool" where
  "strict_eq a b = (a = b \<and> a \<noteq> VNaN)"

text \<open>\<open>utils.isObject\<close>: \<^verbatim>\<open>obj !== null && typeof obj === 'object'\<close>.\<close>

fun isObject :: "jsval \<Rightarrow> bool" where
  "isObject (VRef a) = True"
| "isObject VProto = True"
| "isObject v = False"

text \<open>The names a plain object (\<^verbatim>\<open>{}\<close>) inherits from \<open>Object.prototype\<close>.\<close>

definition object_prototype_keys :: "string list" where
  "object_prototype_keys =
     [''constructor'', ''hasOwnProperty'', ''isPrototypeOf'', ''propertyIsEnumerable'',
      ''toLocaleString'', ''toString'', ''valueOf'', ''__defineGetter__'',
      ''__defineSetter__'', ''__lookupGetter__'', ''__lookupSetter__'', ''__proto__'']"

definition inherited :: "string \<Rightarrow> jsval option" where
  "inherited k =
     (if k = ''__proto__'' then Some VProto
      else if k \<in> set object_prototype_keys then Some (VNative k)
      else None)"

subsection \<open>Strings\<close>

definition digit_char :: "nat \<Rightarrow> char" where
  "digit_char d = ''0123456789'' ! d"

fun digits :: "nat \<Rightarrow> string" where
  "digits n = (if n < 10 then [digit_char n] else digits (n div 10) @ [digit_char (n mod 10)])"

declare digits.simps [simp del]

text \<open>
  The conversion \<^verbatim>\<open>Array.prototype.join\<close> applies to each element: \<open>undefined\<close> and
  \<open>null\<close> give the empty string, everything else goes through \<open>ToString\<close> (a plain object
  prints as \<^verbatim>\<open>[object Object]\<close>, a built-in function under its own name, which for the
  member \<open>constructor\<close> is \<open>Object\<close>).
\<close>

fun join_string :: "jsval \<Rightarrow> string" where
  "join_string VUndefined = []"
| "join_string VNull = []"
| "join_string (VBool b) = (if b then ''true'' else ''false'')"
| "join_string (VNum i) = (if i < 0 then CHR ''-'' # digits (nat (- i)) else digits (nat i))"
| "join_string VNaN = ''NaN''"
| "join_string (VStr s) = s"
| "join_string (VRef a) = ''[object Object]''"
| "join_string (VNative n) =
     ''function '' @ (if n = ''constructor'' then ''Object'' else n) @ ''() { [native code] }''"
| "join_string VProto = ''[object Object]''"

text \<open>The class \<^verbatim>\<open>\s\<close> of a regular expression, which is also what \<open>trim\<close> strips.\<close>

definition is_space :: "char \<Rightarrow> bool" where
  "is_space c =
     (c \<in> set [CHR 0x09, CHR 0x0A, CHR 0x0B, CHR 0x0C, CHR 0x0D, CHR 0x20, CHR 0xA0])"

text \<open>The characters that \<^verbatim>\<open>.\<close> does not match.\<close>

definition is_line_terminator :: "char \<Rightarrow> bool" where
  "is_line_terminator c = (c = CHR 0x0A \<or> c = CHR 0x0D)"

definition trim :: "string \<Rightarrow> string" where
  "trim s = rev (dropWhile is_space (rev (dropWhile is_space s)))"

subsection \<open>Template: the tokenizer\<close>

text \<open>
  With the default option \<open>escape: true\<close> both delimiters are escaped, so the pattern of
  \<open>compile\<close> is \<^verbatim>\<open>d0 \s*(.+?)\s* d1\<close> with \<open>d0\<close> and \<open>d1\<close> matched literally. The
  functions below are the backtracking search of that pattern: \<open>close_group\<close> is
  \<^verbatim>\<open>\s* d1\<close> (greedy, giving characters back), \<open>lazy_group\<close> is \<^verbatim>\<open>(.+?)\<close> followed by
  it (shortest first), \<open>open_group\<close> is the leading \<^verbatim>\<open>\s*\<close>, \<open>match_at\<close> is the whole
  pattern at one position and \<open>exec\<close> is \<^verbatim>\<open>pattern.exec\<close> from \<open>lastIndex\<close>: the
  leftmost position with a match. Each works on the rest of the template from the current
  position and returns the rest after the match.
\<close>

datatype token = Text string | Expression string

definition strip_prefix :: "string \<Rightarrow> string \<Rightarrow> string option" where
  "strip_prefix d s = (if take (length d) s = d then Some (drop (length d) s) else None)"

fun close_group :: "string \<Rightarrow> string \<Rightarrow> string option" where
  "close_group d1 [] = strip_prefix d1 []"
| "close_group d1 (c # u) =
     (case (if is_space c then close_group d1 u else None) of
        Some r \<Rightarrow> Some r
      | None \<Rightarrow> strip_prefix d1 (c # u))"

fun lazy_group :: "string \<Rightarrow> string \<Rightarrow> string \<Rightarrow> (string \<times> string) option" where
  "lazy_group d1 acc [] = None"
| "lazy_group d1 acc (c # t) =
     (if is_line_terminator c then None
      else (case close_group d1 t of
              Some r \<Rightarrow> Some (acc @ [c], r)
            | None \<Rightarrow> lazy_group d1 (acc @ [c]) t))"

fun open_group :: "string \<Rightarrow> string \<Rightarrow> (string \<times> string) option" where
  "open_group d1 [] = lazy_group d1 [] []"
| "open_group d1 (c # r) =
     (case (if is_space c then open_group d1 r else None) of
        Some m \<Rightarrow> Some m
      | None \<Rightarrow> lazy_group d1 [] (c # r))"

definition match_at :: "string \<Rightarrow> string \<Rightarrow> string \<Rightarrow> (string \<times> string) option" where
  "match_at d0 d1 s = (case strip_prefix d0 s of None \<Rightarrow> None | Some r \<Rightarrow> open_group d1 r)"

text \<open>
  \<open>exec d0 d1 s = Some (pre, e, rest)\<close>: the match starts after \<open>pre\<close> (the text between
  \<open>lastIndex\<close> and \<open>match.index\<close>), its group is \<open>e\<close>, and \<open>rest\<close> is the template from
  the new \<open>lastIndex\<close>.
\<close>

fun exec :: "string \<Rightarrow> string \<Rightarrow> string \<Rightarrow> (string \<times> string \<times> string) option" where
  "exec d0 d1 [] =
     (case match_at d0 d1 [] of Some (e, rest) \<Rightarrow> Some ([], e, rest) | None \<Rightarrow> None)"
| "exec d0 d1 (c # s) =
     (case match_at d0 d1 (c # s) of
        Some (e, rest) \<Rightarrow> Some ([], e, rest)
      | None \<Rightarrow>
          (case exec d0 d1 s of
             None \<Rightarrow> None
           | Some (pre, e, rest) \<Rightarrow> Some (c # pre, e, rest)))"

lemma strip_prefix_length: "strip_prefix d s = Some r \<Longrightarrow> length r \<le> length s"
  by (auto simp: strip_prefix_def split: if_splits)

lemma close_group_length: "close_group d1 u = Some r \<Longrightarrow> length r \<le> length u"
proof (induction u)
  case Nil
  then show ?case by (auto dest: strip_prefix_length)
next
  case (Cons c u)
  then show ?case
    by (fastforce split: option.splits if_splits dest: strip_prefix_length)
qed

lemma lazy_group_length: "lazy_group d1 acc t = Some (e, r) \<Longrightarrow> length r < length t"
proof (induction t arbitrary: acc)
  case Nil
  then show ?case by simp
next
  case (Cons c t)
  then show ?case
    by (fastforce split: option.splits if_splits dest: close_group_length)
qed

lemma open_group_length: "open_group d1 s = Some (e, r) \<Longrightarrow> length r < length s"
proof (induction s)
  case Nil
  then show ?case by simp
next
  case (Cons c s)
  show ?case
  proof (cases "if is_space c then open_group d1 s else None")
    case None
    with Cons.prems have "lazy_group d1 [] (c # s) = Some (e, r)" by simp
    then show ?thesis by (rule lazy_group_length)
  next
    case (Some m)
    with Cons.prems have "open_group d1 s = Some (e, r)" by (simp split: if_splits)
    with Cons.IH show ?thesis by simp
  qed
qed

lemma match_at_length: "match_at d0 d1 s = Some (e, r) \<Longrightarrow> length r < length s"
  by (auto simp: match_at_def split: option.splits
      dest!: open_group_length strip_prefix_length)

lemma exec_length: "exec d0 d1 s = Some (pre, e, rest) \<Longrightarrow> length rest < length s"
proof (induction s arbitrary: pre)
  case Nil
  then show ?case by (auto split: option.splits dest: match_at_length)
next
  case (Cons c s)
  then show ?case
    by (fastforce split: option.splits dest: match_at_length)
qed

text \<open>
  The loop of \<open>compile\<close>: a text token for a non-empty span before each match, an
  expression token holding the trimmed group, and a text token for what is left after the
  last match.
\<close>

function tokenize :: "string \<Rightarrow> string \<Rightarrow> string \<Rightarrow> token list" where
  "tokenize d0 d1 s =
     (case exec d0 d1 s of
        None \<Rightarrow> (if s \<noteq> [] then [Text s] else [])
      | Some (pre, e, rest) \<Rightarrow>
          (if pre \<noteq> [] then [Text pre] else []) @ Expression (trim e) # tokenize d0 d1 rest)"
  by pat_completeness auto
termination
  by (relation "measure (\<lambda>(d0, d1, s). length s)") (auto dest: exec_length)

declare tokenize.simps [simp del]

subsection \<open>Template: the cache and the renderer\<close>

text \<open>
  A renderer is the closure \<open>render\<close> that \<open>compile\<close> creates: the tokens it closes over,
  and a number that tells closures apart (the closures of two runs of the tokenizing loop are
  different functions, even over equal tokens). The field \<open>compilations\<close> counts the runs
  of the tokenizing loop; it gives each new closure its number.
\<close>

type_synonym renderer = "nat \<times> token list"

record template_engine =
  delimiters :: "string \<times> string"
  cache :: "(string \<times> renderer) list"
  compilations :: nat

definition new_template :: "string \<Rightarrow> string \<Rightarrow> template_engine" where
  "new_template d0 d1 = \<lparr>delimiters = (d0, d1), cache = [], compilations = 0\<rparr>"

text \<open>
  What \<^verbatim>\<open>this.cache[template]\<close> yields when it is truthy: \<open>cache\<close> is a plain object, so
  the read finds a renderer stored under that name, or else a member inherited from
  \<open>Object.prototype\<close> (all of them are truthy).
\<close>

datatype compiled = Compiled renderer | Inherited jsval

definition cache_lookup :: "(string \<times> renderer) list \<Rightarrow> string \<Rightarrow> compiled option" where
  "cache_lookup c t =
     (case map_of c t of
        Some r \<Rightarrow> Some (Compiled r)
      | None \<Rightarrow> (case inherited t of Some v \<Rightarrow> Some (Inherited v) | None \<Rightarrow> None))"

definition compile :: "template_engine \<Rightarrow> string \<Rightarrow> compiled \<times> template_engine" where
  "compile te t =
     (case cache_lookup (cache te) t of
        Some c \<Rightarrow> (c, te)
      | None \<Rightarrow>
          (let r = (compilations te, tokenize (fst (delimiters te)) (snd (delimiters te)) t)
           in (Compiled r,
               te\<lparr>cache := cache te @ [(t, r)], compilations := Suc (compilations te)\<rparr>)))"

text \<open>
  An expression is evaluated by the engine of the language
  (\<^verbatim>\<open>new Function('data', `with(data) { return ${token.value}; }`)(data)\<close>), which is a
  parameter here: \<open>ev e data\<close> is \<open>Inr\<close> the value, or \<open>Inl\<close> the message of the exception
  thrown.
\<close>

type_synonym 'd evaluator = "string \<Rightarrow> 'd \<Rightarrow> string + jsval"

text \<open>One step of \<^verbatim>\<open>tokens.map\<close>: the element produced and the lines sent to the console.\<close>

fun render_token :: "'d evaluator \<Rightarrow> 'd \<Rightarrow> token \<Rightarrow> jsval \<times> string list" where
  "render_token ev data (Text s) = (VStr s, [])"
| "render_token ev data (Expression e) =
     (case ev e data of
        Inr v \<Rightarrow> (if v \<noteq> VUndefined then v else VStr [], [])
      | Inl m \<Rightarrow> (VStr [], [''Template error: '' @ m]))"

definition run_renderer :: "'d evaluator \<Rightarrow> token list \<Rightarrow> 'd \<Rightarrow> string \<times> string list" where
  "run_renderer ev toks data =
     (concat (map (\<lambda>tok. join_string (fst (render_token ev data tok))) toks),
      concat (map (\<lambda>tok. snd (render_token ev data tok)) toks))"

text \<open>
  \<open>render(template, data)\<close>: \<open>Html\<close> is the string a renderer returns; \<open>Foreign v\<close> says
  that \<open>compile\<close> returned the inherited member \<open>v\<close> and \<open>render\<close> called that in place
  of a renderer.
\<close>

datatype rendered = Html string | Foreign jsval

definition render ::
  "'d evaluator \<Rightarrow> template_engine \<Rightarrow> string \<Rightarrow> 'd \<Rightarrow> rendered \<times> string list \<times> template_engine" where
  "render ev te t data =
     (case compile te t of
        (Compiled r, te') \<Rightarrow>
          (Html (fst (run_renderer ev (snd r) data)), snd (run_renderer ev (snd r) data), te')
      | (Inherited v, te') \<Rightarrow> (Foreign v, [], te'))"

text \<open>
  The evaluation of an expression that is an identifier \<open>x\<close>, in
  \<^verbatim>\<open>with(data) { return x; }\<close>: a property of \<open>data\<close> (its own, then one it inherits),
  then the enclosing scope \<open>outer\<close> (the parameter \<open>data\<close> of the generated function, its
  \<open>arguments\<close>, the globals of the page), and a \<open>ReferenceError\<close> when nothing binds
  \<open>x\<close>. The data object is given by its own properties.

  \<open>function_scope\<close> is the innermost part of the enclosing scope, the bindings of the
  generated function itself: \<open>data\<close> and \<open>arguments\<close>. The renderer does nothing with
  the value of an expression but compare it with \<open>undefined\<close> and convert it to a
  string, so the two objects are given by the strings they convert to. The globals of the
  language and of the page, which come after these two, are left out.
\<close>

definition function_scope :: "string \<Rightarrow> jsval option" where
  "function_scope x =
     (if x = ''data'' then Some (VStr ''[object Object]'')
      else if x = ''arguments'' then Some (VStr ''[object Arguments]'')
      else None)"

definition eval_identifier ::
  "(string \<Rightarrow> jsval option) \<Rightarrow> (string \<times> jsval) list evaluator" where
  "eval_identifier outer x data =
     (case map_of data x of
        Some v \<Rightarrow> Inr v
      | None \<Rightarrow>
          (case inherited x of
             Some v \<Rightarrow> Inr v
           | None \<Rightarrow> (case outer x of Some v \<Rightarrow> Inr v | None \<Rightarrow> Inl (x @ '' is not defined''))))"











definition cache_ok :: "template_engine \<Rightarrow> bool" where
  "cache_ok te =
     list_all (\<lambda>(t, r). snd r = tokenize (fst (delimiters te)) (snd (delimiters te)) t) (cache te)"

subsection \<open>Objects and the store\<close>

text \<open>
  A property of a plain object is a data property holding a value, or the accessor pair that
  \<open>Observer.observe\<close> installs, which closes over the cell \<open>value\<close>. An object is the list
  of its own enumerable properties in the order of \<open>Object.keys\<close>; the store maps the
  address of each object to it.
\<close>

datatype jsprop = Plain jsval | Accessor jsval

fun prop_value :: "jsprop \<Rightarrow> jsval" where
  "prop_value (Plain v) = v"
| "prop_value (Accessor v) = v"

type_synonym obj = "(string \<times> jsprop) list"

type_synonym store = "addr \<Rightarrow> obj option"

text \<open>The read \<^verbatim>\<open>obj[key]\<close>: an own property, or an inherited one, or \<open>undefined\<close>.\<close>

definition get_prop :: "store \<Rightarrow> addr \<Rightarrow> string \<Rightarrow> jsval" where
  "get_prop h a k =
     (case h a of
        None \<Rightarrow> VUndefined
      | Some ob \<Rightarrow>
          (case map_of ob k of
             Some p \<Rightarrow> prop_value p
           | None \<Rightarrow> (case inherited k of Some v \<Rightarrow> v | None \<Rightarrow> VUndefined)))"

definition own_keys :: "store \<Rightarrow> addr \<Rightarrow> string list" where
  "own_keys h a = (case h a of None \<Rightarrow> [] | Some ob \<Rightarrow> map fst ob)"

text \<open>Defining a property: in place when the object has it, at the end otherwise.\<close>

definition put_prop :: "store \<Rightarrow> addr \<Rightarrow> string \<Rightarrow> jsprop \<Rightarrow> store" where
  "put_prop h a k p = (case h a of None \<Rightarrow> h | Some ob \<Rightarrow> h(a \<mapsto> AList.update k p ob))"

subsection \<open>Observer\<close>

definition stack_overflow :: js_error where
  "stack_overflow = RangeError ''Maximum call stack size exceeded''"

text \<open>
  \<open>observe n h v\<close> is \<^verbatim>\<open>this.observe(v)\<close> in the store \<open>h\<close> with room for \<open>n\<close> nested
  calls on the stack; \<open>observe_keys\<close> is the \<open>forEach\<close> over the keys that remain. For each
  key the current value is read, observed first when it is an object, and the accessor pair
  is installed over it. There is no guard against cycles.
\<close>

fun observe :: "nat \<Rightarrow> store \<Rightarrow> jsval \<Rightarrow> js_error + store"
  and observe_keys :: "nat \<Rightarrow> store \<Rightarrow> addr \<Rightarrow> string list \<Rightarrow> js_error + store" where
  "observe 0 h v = Inl stack_overflow"
| "observe (Suc n) h v =
     (case v of VRef a \<Rightarrow> observe_keys n h a (own_keys h a) | _ \<Rightarrow> Inr h)"
| "observe_keys n h a [] = Inr h"
| "observe_keys n h a (k # ks) =
     (case (if isObject (get_prop h a k) then observe n h (get_prop h a k) else Inr h) of
        Inl e \<Rightarrow> Inl e
      | Inr h1 \<Rightarrow> observe_keys n (put_prop h1 a k (Accessor (get_prop h a k))) a ks)"

text \<open>
  The function \<open>set\<close> of the accessor on key \<open>k\<close> of the object at \<open>a\<close>, whose cell holds
  \<open>cur\<close>, up to its last statement: the new store, and the arguments of the call
  \<^verbatim>\<open>this.callback(key, newValue, oldValue)\<close> when the function reaches it.
\<close>

definition accessor_write ::
  "nat \<Rightarrow> store \<Rightarrow> addr \<Rightarrow> string \<Rightarrow> jsval \<Rightarrow> jsval \<Rightarrow>
     js_error + store \<times> (string \<times> jsval \<times> jsval) option" where
  "accessor_write n h a k cur newValue =
     (if strict_eq cur newValue then Inr (h, None)
      else
        (case (if isObject newValue
               then observe n (put_prop h a k (Accessor newValue)) newValue
               else Inr (put_prop h a k (Accessor newValue))) of
           Inl e \<Rightarrow> Inl e
         | Inr h' \<Rightarrow> Inr (h', Some (k, newValue, cur))))"

text \<open>
  The assignment \<^verbatim>\<open>obj[key] = v\<close> on the object at \<open>a\<close>, in a program whose observer
  callback is \<open>cb\<close>. The callback reads the store and acts on the rest \<open>s\<close> of the state.
  An accessor runs its \<open>set\<close> and then the callback; a data property is overwritten; a
  missing property is created as a data property (for the name \<open>__proto__\<close> the
  inherited setter runs instead and no property is created; the change of prototype it
  makes for an object value is not represented).
\<close>

type_synonym 's callback = "string \<Rightarrow> jsval \<Rightarrow> jsval \<Rightarrow> store \<Rightarrow> 's \<Rightarrow> js_error + 's"

definition assign ::
  "nat \<Rightarrow> 's callback \<Rightarrow> store \<Rightarrow> 's \<Rightarrow> addr \<Rightarrow> string \<Rightarrow> jsval \<Rightarrow> js_error + store \<times> 's" where
  "assign n cb h s a k v =
     (case h a of
        None \<Rightarrow> Inr (h, s)
      | Some ob \<Rightarrow>
          (case map_of ob k of
             Some (Accessor cur) \<Rightarrow>
               (case accessor_write n h a k cur v of
                  Inl e \<Rightarrow> Inl e
                | Inr (h', None) \<Rightarrow> Inr (h', s)
                | Inr (h', Some (key, newValue, oldValue)) \<Rightarrow>
                    (case cb key newValue oldValue h' s of
                       Inl e \<Rightarrow> Inl e
                     | Inr s' \<Rightarrow> Inr (h', s')))
           | Some (Plain old) \<Rightarrow> Inr (put_prop h a k (Plain v), s)
           | None \<Rightarrow>
               (if k = ''__proto__'' then Inr (h, s) else Inr (put_prop h a k (Plain v), s))))"

text \<open>
  A store is ranked by \<open>r\<close> when every object value held by an object has a smaller rank
  than its holder: the object graph has no cycle, and \<open>r\<close> bounds its depth.
\<close>

definition ranked :: "(addr \<Rightarrow> nat) \<Rightarrow> store \<Rightarrow> bool" where
  "ranked r h =
     (\<forall>a ob k p. h a = Some ob \<and> (k, p) \<in> set ob \<longrightarrow>
        (case prop_value p of VRef b \<Rightarrow> r b < r a | VProto \<Rightarrow> 0 < r a | _ \<Rightarrow> True))"

text \<open>
  \<open>fits r n v\<close>: observing \<open>v\<close> needs no more than \<open>n\<close> nested calls.
\<close>

definition fits :: "(addr \<Rightarrow> nat) \<Rightarrow> nat \<Rightarrow> jsval \<Rightarrow> bool" where
  "fits r n v = (case v of VRef b \<Rightarrow> r b < n | _ \<Rightarrow> 0 < n)"

text \<open>A tracked key: a property on which the observer's accessor pair is installed.\<close>

definition tracked :: "store \<Rightarrow> addr \<Rightarrow> string \<Rightarrow> bool" where
  "tracked h a k =
     (case h a of
        None \<Rightarrow> False
      | Some ob \<Rightarrow> (case map_of ob k of Some (Accessor v) \<Rightarrow> True | _ \<Rightarrow> False))"

subsection \<open>EventEmitter\<close>

text \<open>
  A listener is the closure \<open>watcher\<close> that a call of \<open>$watch\<close> creates: the number of the
  call (two calls create two closures, also for the same key and callback), the key and the
  user's callback. What user code does shows in a trace of effects: a call of a watcher
  callback with the new and the old value, a call of a lifecycle hook, an assignment to
  \<open>innerHTML\<close>, a line on the console.
\<close>

datatype listener = Watcher nat string nat

datatype effect = Called nat jsval jsval | Hooked string | InnerHTML string | Console string

text \<open>
  The registry \<open>_events\<close>, by event name. (It is a plain object: the functions below are
  the emitter for an event that is not the name of a member of \<open>Object.prototype\<close>, as
  \<open>dataChange\<close>, the only event of the component, is not.)
\<close>

type_synonym listeners = "(string \<times> listener list) list"

definition max_listeners_warning :: "string \<Rightarrow> nat \<Rightarrow> string" where
  "max_listeners_warning event m =
     ''Warning: Event '' @ [CHR 0x22] @ event @ [CHR 0x22]
       @ '' has exceeded the maximum number of listeners ('' @ digits m @ '').''"

definition emitter_on :: "listeners \<Rightarrow> nat \<Rightarrow> string \<Rightarrow> listener \<Rightarrow> listeners \<times> effect list" where
  "emitter_on es m event callback =
     (let cur = (case map_of es event of None \<Rightarrow> [] | Some ls \<Rightarrow> ls)
      in (AList.update event (cur @ [callback]) es,
          if length cur \<ge> m then [Console (max_listeners_warning event m)] else []))"

definition emitter_off :: "listeners \<Rightarrow> string \<Rightarrow> listener \<Rightarrow> listeners" where
  "emitter_off es event callback =
     (case map_of es event of
        None \<Rightarrow> es
      | Some ls \<Rightarrow> AList.update event (filter (\<lambda>cb. cb \<noteq> callback) ls) es)"

text \<open>Calling a listener with \<open>(changedKey, newValue, oldValue)\<close>.\<close>

fun call_listener :: "string \<Rightarrow> jsval \<Rightarrow> jsval \<Rightarrow> listener \<Rightarrow> effect list" where
  "call_listener changedKey newValue oldValue (Watcher i key callback) =
     (if changedKey = key then [Called callback newValue oldValue] else [])"

definition emitter_emit :: "listeners \<Rightarrow> string \<Rightarrow> string \<Rightarrow> jsval \<Rightarrow> jsval \<Rightarrow> effect list" where
  "emitter_emit es event changedKey newValue oldValue =
     (case map_of es event of
        None \<Rightarrow> []
      | Some ls \<Rightarrow> concat (map (call_listener changedKey newValue oldValue) ls))"

subsection \<open>Kiwi\<close>

text \<open>
  A computed getter reads the component (\<open>getter.call(this)\<close>): it is a function of the
  store and of the address of the data object. The options keep what the core reads: the
  initial data, the computed getters, the names of the methods, the watchers, the template
  and the names of the lifecycle hooks that are functions.
\<close>

type_synonym getter = "store \<Rightarrow> addr \<Rightarrow> jsval"

record kiwi_options =
  opt_data :: "(string \<times> jsval) list"
  opt_computed :: "(string \<times> getter) list"
  opt_methods :: "string list"
  opt_watch :: "(string \<times> nat) list"
  opt_template :: "string option"
  opt_hooks :: "string list"

text \<open>
  The members that the program adds to the instance: \<open>_bindMethods\<close> assigns a bound
  method (\<^verbatim>\<open>this[key] = method.bind(this)\<close>), \<open>_setupComputed\<close> defines a getter that
  reads \<open>this.computed[key]\<close>, \<open>_setupReactivity\<close> and \<open>$set\<close> define a getter and a
  setter that read and write \<open>this.data[key]\<close>.
\<close>

datatype own_member = BoundMethod | ComputedProxy | DataProxy

text \<open>
  The component. \<open>el\<close> is the bound element, given by its \<open>innerHTML\<close>; the fields that
  \<open>$destroy\<close> sets to \<open>null\<close> are options. \<open>added\<close> is the table of the members added
  to the instance, by name; \<open>closures\<close> counts the calls of \<open>$watch\<close>,
  \<open>timers\<close> are the callbacks that \<open>$nextTick\<close> handed to \<open>setTimeout\<close> and that have
  not run yet.
\<close>

record kiwi =
  store :: store
  events :: listeners
  maxListeners :: nat
  el :: "string option"
  options :: "kiwi_options option"
  data :: "addr option"
  computed :: "(string \<times> getter) list option"
  observer :: "unit option"
  templateEngine :: "template_engine option"
  animation :: "unit option"
  added :: "(string \<times> own_member) list"
  closures :: nat
  timers :: "nat option list"
  trace :: "effect list"

text \<open>
  The names under which the instance has a member before anything is added: the fields
  that the constructors of \<open>EventEmitter\<close> and \<open>Kiwi\<close> assign, the methods of the two
  classes, and what every object inherits from \<open>Object.prototype\<close>. The modelled
  operations go through the first two groups (\<open>this.el\<close>, \<open>this.data\<close>,
  \<open>this.emit\<close>, ...).
\<close>

definition instance_members :: "string list" where
  "instance_members =
     [''_events'', ''_maxListeners'', ''options'', ''el'', ''data'', ''computed'',
      ''templateEngine'', ''animation'', ''observer'',
      ''_bindMethods'', ''_setupComputed'', ''_setupReactivity'', ''_setupWatchers'',
      ''_renderTemplate'', ''$set'', ''$get'', ''$watch'', ''$nextTick'', ''$destroy'',
      ''$animate'', ''$fadeIn'', ''$fadeOut'', ''$slideDown'', ''$slideUp'',
      ''on'', ''off'', ''emit'', ''once'', ''setMaxListeners'', ''getMaxListeners'',
      ''listenerCount'', ''eventNames'']
     @ object_prototype_keys"

text \<open>
  Adding the member \<open>m\<close> under the name \<open>k\<close> (by \<^verbatim>\<open>this[key] = ...\<close> or by
  \<^verbatim>\<open>Object.defineProperty(this, key, ...)\<close>, every added member being writable and
  configurable): an added member of that name is replaced, a new name is entered. Under
  the name of a member of the classes the program replaces or hides that member
  (\<^verbatim>\<open>this.el\<close> would read \<^verbatim>\<open>this.data.el\<close> from then on), which is where the
  embedding stops.
\<close>

type_synonym members = "(string \<times> own_member) list"

definition add_member :: "string \<Rightarrow> own_member \<Rightarrow> members \<Rightarrow> js_error + members" where
  "add_member k m tab =
     (if k \<in> set instance_members then Inl (Unrepresented k) else Inr (AList.update k m tab))"

fun add_members :: "own_member \<Rightarrow> string list \<Rightarrow> members \<Rightarrow> js_error + members" where
  "add_members m [] tab = Inr tab"
| "add_members m (k # ks) tab =
     (case add_member k m tab of Inl e \<Rightarrow> Inl e | Inr tab' \<Rightarrow> add_members m ks tab')"

type_synonym expressions = "store \<Rightarrow> (string \<times> jsval) list evaluator"

definition null_error :: "string \<Rightarrow> js_error" where
  "null_error what =
     TypeError (''Cannot read properties of null (reading '' @ [CHR 0x27] @ what @ [CHR 0x27] @ '')'')"

text \<open>
  \<^verbatim>\<open>utils.extend({}, this.data, this.computed)\<close>: the own properties of the data object,
  read through their accessors, then each computed entry, read through its getter. (The
  branch of \<open>extend\<close> that merges two objects in place is not taken here as long as no
  computed entry returns an object under the name of a data key that holds one.)
\<close>

definition template_data :: "store \<Rightarrow> addr \<Rightarrow> (string \<times> getter) list \<Rightarrow> (string \<times> jsval) list" where
  "template_data h d cs =
     fold (\<lambda>(k, g) target. AList.update k (g h d) target) cs
       (map (\<lambda>k. (k, get_prop h d k)) (own_keys h d))"

text \<open>
  What \<open>renderFn(data)\<close> is, converted to the string that \<open>innerHTML\<close> takes, when
  \<open>renderFn\<close> is a member inherited by the cache: \<open>Object(data)\<close> is the data object,
  \<open>Object.prototype.toString\<close> called without a receiver answers for \<open>undefined\<close>, the
  other functions throw on the missing receiver, and \<open>Object.prototype\<close> is not a function.
\<close>

definition call_foreign :: "jsval \<Rightarrow> js_error + string" where
  "call_foreign v =
     (if v = VNative ''constructor'' then Inr ''[object Object]''
      else if v = VNative ''toString'' then Inr ''[object Undefined]''
      else Inl (TypeError ''renderFn(data)''))"

definition renderTemplate :: "expressions \<Rightarrow> kiwi \<Rightarrow> js_error + kiwi" where
  "renderTemplate ev c =
     (case el c of
        None \<Rightarrow> Inr c
      | Some old \<Rightarrow>
          (case options c of
             None \<Rightarrow> Inl (null_error ''template'')
           | Some opts \<Rightarrow>
               (case opt_template opts of
                  None \<Rightarrow> Inr c
                | Some t \<Rightarrow>
                    (if t = [] then Inr c
                     else
                       (case (data c, computed c, templateEngine c) of
                          (Some d, Some cs, Some te) \<Rightarrow>
                            (case render (ev (store c)) te t (template_data (store c) d cs) of
                               (Html html, console, te') \<Rightarrow>
                                 Inr (c\<lparr>el := Some html, templateEngine := Some te',
                                        trace := trace c @ map Console console @ [InnerHTML html]\<rparr>)
                             | (Foreign v, console, te') \<Rightarrow>
                                 (case call_foreign v of
                                    Inl e \<Rightarrow> Inl e
                                  | Inr html \<Rightarrow>
                                      Inr (c\<lparr>el := Some html, templateEngine := Some te',
                                             trace := trace c @ [InnerHTML html]\<rparr>)))
                        | _ \<Rightarrow> Inl (null_error ''render''))))))"

definition call_hook :: "string \<Rightarrow> kiwi_options \<Rightarrow> kiwi \<Rightarrow> kiwi" where
  "call_hook name opts c =
     (if name \<in> set (opt_hooks opts) then c\<lparr>trace := trace c @ [Hooked name]\<rparr> else c)"

text \<open>
  The callback that \<open>_setupReactivity\<close> gives to the observer: emit \<open>dataChange\<close>, call
  \<open>beforeUpdate\<close>, render again when a template and an element are there, call
  \<open>updated\<close>. It is called with the store the write has produced.
\<close>

definition on_change :: "expressions \<Rightarrow> kiwi callback" where
  "on_change ev key newValue oldValue h c0 =
     (let c = c0\<lparr>store := h\<rparr>;
          c1 = c\<lparr>trace := trace c @ emitter_emit (events c) ''dataChange'' key newValue oldValue\<rparr>
      in (case options c1 of
            None \<Rightarrow> Inl (null_error ''beforeUpdate'')
          | Some opts \<Rightarrow>
              (case (if opt_template opts \<noteq> None \<and> opt_template opts \<noteq> Some [] \<and> el c1 \<noteq> None
                     then renderTemplate ev (call_hook ''beforeUpdate'' opts c1)
                     else Inr (call_hook ''beforeUpdate'' opts c1)) of
                 Inl e \<Rightarrow> Inl e
               | Inr c2 \<Rightarrow> Inr (call_hook ''updated'' opts c2))))"

text \<open>The assignment \<^verbatim>\<open>obj[key] = v\<close> in the program of the component.\<close>

definition kiwi_assign :: "nat \<Rightarrow> expressions \<Rightarrow> kiwi \<Rightarrow> addr \<Rightarrow> string \<Rightarrow> jsval \<Rightarrow> js_error + kiwi" where
  "kiwi_assign n ev c a k v =
     (case assign n (on_change ev) (store c) c a k v of
        Inl e \<Rightarrow> Inl e
      | Inr (h, c') \<Rightarrow> Inr (c'\<lparr>store := h\<rparr>))"

text \<open>
  \<open>$set(key, value)\<close> for a key that is not an object. When the data object maps the key
  to \<open>undefined\<close>: the assignment, the observer run over the whole data object again,
  and the proxy defined on the instance under the name of the key.
\<close>

definition set_key :: "nat \<Rightarrow> expressions \<Rightarrow> kiwi \<Rightarrow> string \<Rightarrow> jsval \<Rightarrow> js_error + kiwi" where
  "set_key n ev c key v =
     (case data c of
        None \<Rightarrow> Inl (null_error key)
      | Some d \<Rightarrow>
          (if get_prop (store c) d key = VUndefined
           then
             (case kiwi_assign n ev c d key v of
                Inl e \<Rightarrow> Inl e
              | Inr c1 \<Rightarrow>
                  (case observer c1 of
                     None \<Rightarrow> Inl (null_error ''observe'')
                   | Some u \<Rightarrow>
                       (case observe n (store c1) (VRef d) of
                          Inl e \<Rightarrow> Inl e
                        | Inr h \<Rightarrow>
                            (case add_member key DataProxy (added c1) of
                               Inl e \<Rightarrow> Inl e
                             | Inr tab \<Rightarrow> Inr (c1\<lparr>store := h, added := tab\<rparr>)))))
           else kiwi_assign n ev c d key v))"

text \<open>\<open>$set(mapping)\<close>: \<open>utils.each\<close> over the entries of the mapping, in its order.\<close>

fun set_each :: "nat \<Rightarrow> expressions \<Rightarrow> kiwi \<Rightarrow> (string \<times> jsval) list \<Rightarrow> js_error + kiwi" where
  "set_each n ev c [] = Inr c"
| "set_each n ev c ((k, v) # m) =
     (case set_key n ev c k v of Inl e \<Rightarrow> Inl e | Inr c1 \<Rightarrow> set_each n ev c1 m)"

datatype set_argument = Key string jsval | Mapping "(string \<times> jsval) list"

definition kiwi_set :: "nat \<Rightarrow> expressions \<Rightarrow> kiwi \<Rightarrow> set_argument \<Rightarrow> js_error + kiwi" where
  "kiwi_set n ev c arg =
     (case arg of Mapping m \<Rightarrow> set_each n ev c m | Key key v \<Rightarrow> set_key n ev c key v)"

text \<open>\<open>$get(key)\<close>; an absent or empty key is falsy and gives the data object itself.\<close>

definition kiwi_get :: "kiwi \<Rightarrow> string option \<Rightarrow> js_error + jsval" where
  "kiwi_get c key =
     (if key \<noteq> None \<and> key \<noteq> Some []
      then (case data c of
              None \<Rightarrow> Inl (null_error (the key))
            | Some d \<Rightarrow> Inr (get_prop (store c) d (the key)))
      else (case data c of None \<Rightarrow> Inr VNull | Some d \<Rightarrow> Inr (VRef d)))"

text \<open>
  \<open>$watch(key, callback)\<close> for a key that is not an object: the component with the new
  listener, and the listener that the returned function closes over. \<open>unwatch\<close> is that
  returned function.
\<close>

definition kiwi_watch :: "kiwi \<Rightarrow> string \<Rightarrow> nat \<Rightarrow> kiwi \<times> listener" where
  "kiwi_watch c key callback =
     (let watcher = Watcher (closures c) key callback;
          (es, console) = emitter_on (events c) (maxListeners c) ''dataChange'' watcher
      in (c\<lparr>events := es, closures := Suc (closures c), trace := trace c @ console\<rparr>, watcher))"

definition unwatch :: "kiwi \<Rightarrow> listener \<Rightarrow> kiwi" where
  "unwatch c watcher = c\<lparr>events := emitter_off (events c) ''dataChange'' watcher\<rparr>"

text \<open>\<open>$nextTick(callback)\<close>: the promise is created and the timer is set.\<close>

definition kiwi_nextTick :: "kiwi \<Rightarrow> nat option \<Rightarrow> kiwi" where
  "kiwi_nextTick c callback = c\<lparr>timers := timers c @ [callback]\<rparr>"

definition kiwi_destroy :: "kiwi \<Rightarrow> js_error + kiwi" where
  "kiwi_destroy c =
     (case options c of
        None \<Rightarrow> Inl (null_error ''beforeDestroy'')
      | Some opts \<Rightarrow>
          Inr ((call_hook ''destroyed'' opts ((call_hook ''beforeDestroy'' opts c)\<lparr>events := []\<rparr>))
                 \<lparr>el := None, options := None, data := None, computed := None,
                  observer := None, templateEngine := None, animation := None\<rparr>))"

text \<open>
  The constructor, for options \<open>opts\<close>, the element \<open>e\<close> that \<open>options.element\<close>
  designates (if any), in the store \<open>h\<close> where the objects of the initial data live; \<open>d\<close>
  is the address of the new object \<open>this.data\<close>, into which \<open>_setupReactivity\<close> copies
  the entries of the initial data before it observes it and defines a proxy for each of
  its keys. Before that, \<open>_bindMethods\<close> adds the methods and \<open>_setupComputed\<close> the
  proxies of the computed entries.
\<close>

fun setupWatchers :: "kiwi \<Rightarrow> (string \<times> nat) list \<Rightarrow> kiwi" where
  "setupWatchers c [] = c"
| "setupWatchers c ((key, handler) # ws) = setupWatchers (fst (kiwi_watch c key handler)) ws"

definition setupReactivity :: "nat \<Rightarrow> kiwi \<Rightarrow> kiwi_options \<Rightarrow> js_error + kiwi" where
  "setupReactivity n c opts =
     (case data c of
        None \<Rightarrow> Inl (null_error ''data'')
      | Some d \<Rightarrow>
          (case observe n (fold (\<lambda>(k, v) h. put_prop h d k (Plain v)) (opt_data opts) (store c))
                  (VRef d) of
             Inl e \<Rightarrow> Inl e
           | Inr h \<Rightarrow>
               (case add_members DataProxy (own_keys h d) (added c) of
                  Inl e \<Rightarrow> Inl e
                | Inr tab \<Rightarrow> Inr (c\<lparr>store := h, observer := Some (), added := tab\<rparr>))))"

definition kiwi_new ::
  "nat \<Rightarrow> expressions \<Rightarrow> store \<Rightarrow> addr \<Rightarrow> string option \<Rightarrow> kiwi_options \<Rightarrow> js_error + kiwi" where
  "kiwi_new n ev h d e opts =
     (let c0 = \<lparr>store = h(d \<mapsto> []), events = [], maxListeners = 10, el = e, options = Some opts,
                data = Some d, computed = Some [], observer = None,
                templateEngine = Some (new_template ''{{'' ''}}''), animation = Some (),
                added = [], closures = 0, timers = [], trace = []\<rparr>
      in (case add_members BoundMethod (opt_methods opts) [] of
            Inl e \<Rightarrow> Inl e
          | Inr methods \<Rightarrow>
              (case add_members ComputedProxy (map fst (opt_computed opts)) methods of
                 Inl e \<Rightarrow> Inl e
               | Inr tab \<Rightarrow>
                   (case setupReactivity n
                           ((call_hook ''created'' opts c0)
                              \<lparr>computed := Some (opt_computed opts), added := tab\<rparr>) opts of
                      Inl e \<Rightarrow> Inl e
                    | Inr c2 \<Rightarrow>
                        (case (if opt_template opts \<noteq> None \<and> opt_template opts \<noteq> Some [] \<and> e \<noteq> None
                               then renderTemplate ev
                                      (call_hook ''beforeMount'' opts (setupWatchers c2 (opt_watch opts)))
                               else Inr (call_hook ''beforeMount'' opts (setupWatchers c2 (opt_watch opts)))) of
                           Inl e \<Rightarrow> Inl e
                         | Inr c3 \<Rightarrow> Inr (call_hook ''mounted'' opts c3))))))"

subsection \<open>Notions used in the statements\<close>

text \<open>
  The callbacks of the watchers registered for a key, in the order of registration; the
  number of times a trace assigns \<open>innerHTML\<close>; the parts of what \<open>render\<close> returns.
\<close>

fun watcher_for :: "string \<Rightarrow> listener \<Rightarrow> nat list" where
  "watcher_for key (Watcher i k callback) = (if k = key then [callback] else [])"

definition callbacks_for :: "listeners \<Rightarrow> string \<Rightarrow> nat list" where
  "callbacks_for es key =
     concat (map (watcher_for key) (case map_of es ''dataChange'' of None \<Rightarrow> [] | Some ls \<Rightarrow> ls))"

fun is_render :: "effect \<Rightarrow> bool" where
  "is_render (InnerHTML s) = True"
| "is_render e = False"

definition renders :: "effect list \<Rightarrow> nat" where
  "renders tr = length (filter is_render tr)"

definition render_html :: "'d evaluator \<Rightarrow> template_engine \<Rightarrow> string \<Rightarrow> 'd \<Rightarrow> string" where
  "render_html ev te t D = (case fst (render ev te t D) of Html s \<Rightarrow> s | Foreign v \<Rightarrow> [])"

definition render_console :: "'d evaluator \<Rightarrow> template_engine \<Rightarrow> string \<Rightarrow> 'd \<Rightarrow> string list" where
  "render_console ev te t D = fst (snd (render ev te t D))"

text \<open>
  A component that is mounted: nothing of it is \<open>null\<close>, it has an element and a template
  \<open>t\<close>, and \<open>t\<close> is not the name of a member of \<open>Object.prototype\<close>.
\<close>

definition mounted ::
  "kiwi \<Rightarrow> kiwi_options \<Rightarrow> addr \<Rightarrow> (string \<times> getter) list \<Rightarrow> template_engine \<Rightarrow> string \<Rightarrow> bool" where
  "mounted c opts d cs te t =
     (options c = Some opts \<and> data c = Some d \<and> computed c = Some cs \<and> observer c = Some ()
      \<and> templateEngine c = Some te \<and> el c \<noteq> None
      \<and> opt_template opts = Some t \<and> t \<noteq> [] \<and> inherited t = None)"

text \<open>
  The effects of one update cycle for a write of \<open>nv\<close> over \<open>ov\<close> under \<open>key\<close>, in the
  store \<open>h\<close> that the write leaves: the watchers of the key, \<open>beforeUpdate\<close>, what the
  rendering sends to the console, the assignment to \<open>innerHTML\<close>, \<open>updated\<close>.
\<close>

definition hook_effect :: "string \<Rightarrow> kiwi_options \<Rightarrow> effect list" where
  "hook_effect name opts = (if name \<in> set (opt_hooks opts) then [Hooked name] else [])"

definition cycle ::
  "expressions \<Rightarrow> kiwi_options \<Rightarrow> listeners \<Rightarrow> store \<Rightarrow> addr \<Rightarrow> (string \<times> getter) list \<Rightarrow>
     template_engine \<Rightarrow> string \<Rightarrow> string \<Rightarrow> jsval \<Rightarrow> jsval \<Rightarrow> effect list" where
  "cycle ev opts es h d cs te t key nv ov =
     map (\<lambda>callback. Called callback nv ov) (callbacks_for es key)
     @ hook_effect ''beforeUpdate'' opts
     @ map Console (render_console (ev h) te t (template_data h d cs))
     @ [InnerHTML (render_html (ev h) te t (template_data h d cs))]
     @ hook_effect ''updated'' opts"

text \<open>
  The listeners of \<open>dataChange\<close>, and the components in which every one of them is a
  closure of an earlier call of \<open>watch\<close>.
\<close>

definition listeners_of :: "kiwi \<Rightarrow> listener list" where
  "listeners_of c = (case map_of (events c) ''dataChange'' of None \<Rightarrow> [] | Some ls \<Rightarrow> ls)"

fun closure_number :: "listener \<Rightarrow> nat" where
  "closure_number (Watcher i key callback) = i"

definition closures_fresh :: "kiwi \<Rightarrow> bool" where
  "closures_fresh c = list_all (\<lambda>l. closure_number l < closures c) (listeners_of c)"

subsection \<open>Example components\<close>

text \<open>
  Template expressions that are identifiers, none of them the name of a global (the
  templates of the examples name data keys and computed entries only).
\<close>

definition identifiers :: expressions where
  "identifiers = (\<lambda>h. eval_identifier function_scope)"

text \<open>
  Two tracked keys \<open>a\<close> and \<open>b\<close>, a watcher on each, and a template that shows both;
  \<open>two_keys\<close> is the component the constructor returns for these options.
\<close>

definition two_keys_options :: kiwi_options where
  "two_keys_options =
     \<lparr>opt_data = [(''a'', VNum 0), (''b'', VNum 0)], opt_computed = [], opt_methods = [],
      opt_watch = [(''a'', 1), (''b'', 2)], opt_template = Some ''{{a}},{{b}}'',
      opt_hooks = []\<rparr>"

definition two_keys_engine :: template_engine where
  "two_keys_engine =
     \<lparr>delimiters = (''{{'', ''}}''),
      cache = [(''{{a}},{{b}}'', 0, [Expression ''a'', Text '','', Expression ''b''])],
      compilations = 1\<rparr>"

definition two_keys :: kiwi where
  "two_keys =
     \<lparr>store = [0 \<mapsto> [(''a'', Accessor (VNum 0)), (''b'', Accessor (VNum 0))]],
      events = [(''dataChange'', [Watcher 0 ''a'' 1, Watcher 1 ''b'' 2])],
      maxListeners = 10, el = Some ''0,0'', options = Some two_keys_options,
      data = Some 0, computed = Some [], observer = Some (),
      templateEngine = Some two_keys_engine, animation = Some (),
      added = [(''a'', DataProxy), (''b'', DataProxy)], closures = 2, timers = [],
      trace = [InnerHTML ''0,0'']\<rparr>"

text \<open>
  The data \<open>count = 3\<close> and the computed entry \<open>double = () => count * 2\<close>, for a
  \<open>count\<close> that is not a string (the conversion of a string to a number is not
  modelled).
\<close>

definition double :: getter where
  "double h d =
     (case get_prop h d ''count'' of
        VNum i \<Rightarrow> VNum (i * 2)
      | VNull \<Rightarrow> VNum 0
      | VBool b \<Rightarrow> VNum (if b then 2 else 0)
      | _ \<Rightarrow> VNaN)"

definition doubling_options :: kiwi_options where
  "doubling_options =
     \<lparr>opt_data = [(''count'', VNum 3)], opt_computed = [(''double'', double)], opt_methods = [],
      opt_watch = [], opt_template = Some ''{{double}}'', opt_hooks = []\<rparr>"

definition doubling_engine :: template_engine where
  "doubling_engine =
     \<lparr>delimiters = (''{{'', ''}}''), cache = [(''{{double}}'', 0, [Expression ''double''])],
      compilations = 1\<rparr>"

definition doubling :: kiwi where
  "doubling =
     \<lparr>store = [0 \<mapsto> [(''count'', Accessor (VNum 3))]], events = [],
      maxListeners = 10, el = Some ''6'', options = Some doubling_options,
      data = Some 0, computed = Some [(''double'', double)], observer = Some (),
      templateEngine = Some doubling_engine, animation = Some (),
      added = [(''double'', ComputedProxy), (''count'', DataProxy)], closures = 0, timers = [],
      trace = [InnerHTML ''6'']\<rparr>"

text \<open>
  A key \<open>name\<close> at the top and a key \<open>name\<close> inside the nested object \<open>user\<close> (at
  address 1), with a watcher on \<open>name\<close>.
\<close>

definition nested_options :: kiwi_options where
  "nested_options =
     \<lparr>opt_data = [(''name'', VStr ''top''), (''user'', VRef 1)], opt_computed = [], opt_methods = [],
      opt_watch = [(''name'', 1)], opt_template = Some ''{{name}}'', opt_hooks = []\<rparr>"

definition nested_engine :: template_engine where
  "nested_engine =
     \<lparr>delimiters = (''{{'', ''}}''), cache = [(''{{name}}'', 0, [Expression ''name''])],
      compilations = 1\<rparr>"

definition nested :: kiwi where
  "nested =
     \<lparr>store = [1 \<mapsto> [(''name'', Accessor (VStr ''ann''))],
               0 \<mapsto> [(''name'', Accessor (VStr ''top'')), (''user'', Accessor (VRef 1))]],
      events = [(''dataChange'', [Watcher 0 ''name'' 1])],
      maxListeners = 10, el = Some ''top'', options = Some nested_options,
      data = Some 0, computed = Some [], observer = Some (),
      templateEngine = Some nested_engine, animation = Some (),
      added = [(''name'', DataProxy), (''user'', DataProxy)], closures = 1, timers = [],
      trace = [InnerHTML ''top'']\<rparr>"

text \<open>A key \<open>x\<close> that the initial data holds with the value \<open>undefined\<close>.\<close>

definition undefined_key_options :: kiwi_options where
  "undefined_key_options =
     \<lparr>opt_data = [(''x'', VUndefined)], opt_computed = [], opt_methods = [],
      opt_watch = [(''x'', 1)], opt_template = Some ''{{x}}'', opt_hooks = []\<rparr>"

definition undefined_key_engine :: template_engine where
  "undefined_key_engine =
     \<lparr>delimiters = (''{{'', ''}}''), cache = [(''{{x}}'', 0, [Expression ''x''])],
      compilations = 1\<rparr>"

definition undefined_key :: kiwi where
  "undefined_key =
     \<lparr>store = [0 \<mapsto> [(''x'', Accessor VUndefined)]],
      events = [(''dataChange'', [Watcher 0 ''x'' 1])],
      maxListeners = 10, el = Some [], options = Some undefined_key_options,
      data = Some 0, computed = Some [], observer = Some (),
      templateEngine = Some undefined_key_engine, animation = Some (),
      added = [(''x'', DataProxy)], closures = 1, timers = [], trace = [InnerHTML []]\<rparr>"

text \<open>The component \<open>two_keys\<close> after \<open>$destroy\<close>.\<close>

definition destroyed_two_keys :: kiwi where
  "destroyed_two_keys =
     two_keys\<lparr>events := [], el := None, options := None, data := None, computed := None,
              observer := None, templateEngine := None, animation := None\<rparr>"

section \<open>Properties of the observer\<close>

definition values_of :: "store \<Rightarrow> addr \<Rightarrow> (string \<times> jsval) list option" where
  "values_of h a = map_option (map (\<lambda>(k, p). (k, prop_value p))) (h a)"

lemma map_of_values:
  "map_of (map (\<lambda>(k, p). (k, prop_value p)) ob) k = map_option prop_value (map_of ob k)"
  by (induction ob) auto

lemma get_prop_values:
  "get_prop h a k =
     (case values_of h a of
        None \<Rightarrow> VUndefined
      | Some vs \<Rightarrow>
          (case map_of vs k of
             Some v \<Rightarrow> v
           | None \<Rightarrow> (case inherited k of Some v \<Rightarrow> v | None \<Rightarrow> VUndefined)))"
  by (auto simp: get_prop_def values_of_def map_of_values split: option.splits)

lemma own_keys_values:
  "own_keys h a = (case values_of h a of None \<Rightarrow> [] | Some vs \<Rightarrow> map fst vs)"
  by (auto simp: own_keys_def values_of_def split: option.splits)

lemma values_eq_get_prop: "values_of h' = values_of h \<Longrightarrow> get_prop h' a k = get_prop h a k"
  by (simp add: get_prop_values)

lemma values_eq_own_keys: "values_of h' = values_of h \<Longrightarrow> own_keys h' a = own_keys h a"
  by (simp add: own_keys_values)

lemma update_same_value:
  "map_of ob k = Some p \<Longrightarrow> prop_value q = prop_value p \<Longrightarrow>
     map (\<lambda>(k, p). (k, prop_value p)) (AList.update k q ob) = map (\<lambda>(k, p). (k, prop_value p)) ob"
  by (induction ob) (auto split: if_splits)

lemma own_key_map_of: "k \<in> set (own_keys h a) \<Longrightarrow> \<exists>ob p. h a = Some ob \<and> map_of ob k = Some p"
  by (auto simp: own_keys_def split: option.splits) (metis weak_map_of_SomeI map_of_eq_None_iff not_Some_eq image_eqI fst_conv)

lemma put_accessor_values:
  assumes "k \<in> set (own_keys h a)"
  shows "values_of (put_prop h a k (Accessor (get_prop h a k))) = values_of h"
proof -
  from own_key_map_of [OF assms] obtain ob p where ob: "h a = Some ob" "map_of ob k = Some p"
    by blast
  then have g: "get_prop h a k = prop_value p" by (simp add: get_prop_def)
  have "map (\<lambda>(k, p). (k, prop_value p)) (AList.update k (Accessor (prop_value p)) ob)
      = map (\<lambda>(k, p). (k, prop_value p)) ob"
    by (rule update_same_value [OF ob(2)]) simp
  with ob g show ?thesis
    by (auto simp: values_of_def put_prop_def fun_eq_iff)
qed

lemma observe_values:
  "observe n h v = Inr h' \<Longrightarrow> values_of h' = values_of h"
  "observe_keys n h a ks = Inr h' \<Longrightarrow> set ks \<subseteq> set (own_keys h a) \<Longrightarrow> values_of h' = values_of h"
proof (induction n h v and n h a ks arbitrary: h' and h' rule: observe_observe_keys.induct)
  case (1 h v)
  then show ?case by simp
next
  case (2 n h v)
  then show ?case by (cases v) auto
next
  case (3 n h a)
  then show ?case by simp
next
  case (4 n h a k ks)
  let ?cur = "get_prop h a k"
  from "4.prems" obtain h1 where
    h1: "(if isObject ?cur then observe n h ?cur else Inr h) = Inr h1"
    and rest: "observe_keys n (put_prop h1 a k (Accessor ?cur)) a ks = Inr h'"
    by (auto split: sum.splits)
  have v1: "values_of h1 = values_of h"
  proof (cases "isObject ?cur")
    case True
    with h1 "4.IH"(1) show ?thesis by simp
  next
    case False
    with h1 show ?thesis by simp
  qed
  from "4.prems"(2) have k: "k \<in> set (own_keys h1 a)"
    by (simp add: values_eq_own_keys [OF v1])
  have g: "get_prop h1 a k = ?cur" by (rule values_eq_get_prop [OF v1])
  have v2: "values_of (put_prop h1 a k (Accessor ?cur)) = values_of h1"
    using put_accessor_values [OF k] g by simp
  have "set ks \<subseteq> set (own_keys (put_prop h1 a k (Accessor ?cur)) a)"
    using "4.prems"(2) by (simp add: values_eq_own_keys [OF v2] values_eq_own_keys [OF v1])
  from "4.IH"(2) [OF h1 rest this] v2 v1 show ?case by simp
qed


lemma put_prop_tracked_same: "h a \<noteq> None \<Longrightarrow> tracked (put_prop h a k (Accessor v)) a k"
  by (auto simp: tracked_def put_prop_def update_conv' split: option.splits)

lemma put_prop_tracked_other:
  "tracked h b j \<Longrightarrow> tracked (put_prop h a k (Accessor v)) b j"
  by (auto simp: tracked_def put_prop_def update_conv' split: option.splits jsprop.splits)


lemma observe_tracked_mono:
  "observe n h v = Inr h' \<Longrightarrow> tracked h b j \<Longrightarrow> tracked h' b j"
  "observe_keys n h a ks = Inr h' \<Longrightarrow> tracked h b j \<Longrightarrow> tracked h' b j"
proof (induction n h v and n h a ks arbitrary: h' and h' rule: observe_observe_keys.induct)
  case (1 h v)
  then show ?case by simp
next
  case (2 n h v)
  then show ?case by (cases v) auto
next
  case (3 n h a)
  then show ?case by simp
next
  case (4 n h a k ks)
  from "4.prems" obtain h1 where
    h1: "(if isObject (get_prop h a k) then observe n h (get_prop h a k) else Inr h) = Inr h1"
    and rest: "observe_keys n (put_prop h1 a k (Accessor (get_prop h a k))) a ks = Inr h'"
    by (auto split: sum.splits)
  have "tracked h1 b j" using h1 "4.IH"(1) "4.prems"(2) by (auto split: if_splits)
  then have "tracked (put_prop h1 a k (Accessor (get_prop h a k))) b j"
    by (rule put_prop_tracked_other)
  with "4.IH"(2) [OF h1 rest] show ?case by simp
qed



lemma ranked_values:
  "ranked r h =
     (\<forall>a vs k v. values_of h a = Some vs \<and> (k, v) \<in> set vs \<longrightarrow>
        (case v of VRef b \<Rightarrow> r b < r a | VProto \<Rightarrow> 0 < r a | _ \<Rightarrow> True))"
  unfolding ranked_def values_of_def by (auto, fastforce+)

lemma ranked_cong: "values_of h' = values_of h \<Longrightarrow> ranked r h' = ranked r h"
  by (simp add: ranked_values)

lemma ranked_own_value:
  assumes "ranked r h" and "k \<in> set (own_keys h a)" and "r a \<le> n"
    and "isObject (get_prop h a k)"
  shows "fits r n (get_prop h a k)"
proof -
  from own_key_map_of [OF assms(2)] obtain ob p where
    ob: "h a = Some ob" "map_of ob k = Some p" by blast
  then have g: "get_prop h a k = prop_value p" by (simp add: get_prop_def)
  from ob(2) have "(k, p) \<in> set ob" by (rule map_of_SomeD)
  with assms(1) ob(1) have
    "(case prop_value p of VRef b \<Rightarrow> r b < r a | VProto \<Rightarrow> 0 < r a | _ \<Rightarrow> True)"
    unfolding ranked_def by blast
  with assms(3,4) g show ?thesis
    by (cases "prop_value p") (auto simp: fits_def)
qed

lemma observe_total:
  "ranked r h \<Longrightarrow> fits r n v \<Longrightarrow> \<exists>h'. observe n h v = Inr h'"
  "ranked r h \<Longrightarrow> r a \<le> n \<Longrightarrow> set ks \<subseteq> set (own_keys h a) \<Longrightarrow>
     \<exists>h'. observe_keys n h a ks = Inr h'"
proof (induction n h v and n h a ks rule: observe_observe_keys.induct)
  case (1 h v)
  then show ?case by (cases v) (auto simp: fits_def)
next
  case (2 n h v)
  show ?case
  proof (cases v)
    case (VRef a)
    with "2.prems" have "r a \<le> n" by (simp add: fits_def)
    with "2.IH" [OF VRef "2.prems"(1)] VRef show ?thesis by simp
  qed auto
next
  case (3 n h a)
  then show ?case by simp
next
  case (4 n h a k ks)
  let ?cur = "get_prop h a k"
  from "4.prems"(3) have k: "k \<in> set (own_keys h a)" by simp
  have "\<exists>h1. (if isObject ?cur then observe n h ?cur else Inr h) = Inr h1"
  proof (cases "isObject ?cur")
    case True
    from ranked_own_value [OF "4.prems"(1) k "4.prems"(2) True]
    have "fits r n ?cur" .
    from "4.IH"(1) [OF True "4.prems"(1) this] True show ?thesis by simp
  next
    case False
    then show ?thesis by simp
  qed
  then obtain h1 where
    h1: "(if isObject ?cur then observe n h ?cur else Inr h) = Inr h1" by blast
  have v1: "values_of h1 = values_of h"
    using h1 observe_values(1) by (auto split: if_splits)
  from k have k1: "k \<in> set (own_keys h1 a)" by (simp add: values_eq_own_keys [OF v1])
  have g: "get_prop h1 a k = ?cur" by (rule values_eq_get_prop [OF v1])
  let ?h2 = "put_prop h1 a k (Accessor ?cur)"
  have v2: "values_of ?h2 = values_of h1" using put_accessor_values [OF k1] g by simp
  have r2: "ranked r ?h2" using "4.prems"(1) by (simp add: ranked_cong [OF v2] ranked_cong [OF v1])
  have s2: "set ks \<subseteq> set (own_keys ?h2 a)"
    using "4.prems"(3) by (simp add: values_eq_own_keys [OF v2] values_eq_own_keys [OF v1])
  from "4.IH"(2) [OF h1 r2 "4.prems"(2) s2] h1 show ?case by simp
qed

lemma tracked_cell:
  "tracked h a k \<Longrightarrow> \<exists>ob. h a = Some ob \<and> map_of ob k = Some (Accessor (get_prop h a k))"
  by (auto simp: tracked_def get_prop_def split: option.splits jsprop.splits)

lemma assign_tracked:
  assumes "tracked h a k"
  shows "assign n cb h s a k v =
     (case accessor_write n h a k (get_prop h a k) v of
        Inl e \<Rightarrow> Inl e
      | Inr (h', None) \<Rightarrow> Inr (h', s)
      | Inr (h', Some (key, newValue, oldValue)) \<Rightarrow>
          (case cb key newValue oldValue h' s of Inl e \<Rightarrow> Inl e | Inr s' \<Rightarrow> Inr (h', s')))"
  using tracked_cell [OF assms] by (auto simp: assign_def)

lemma get_put_prop: "h a \<noteq> None \<Longrightarrow> get_prop (put_prop h a k p) a k = prop_value p"
  by (auto simp: get_prop_def put_prop_def update_conv')

lemma accessor_write_same: "strict_eq cur v \<Longrightarrow> accessor_write n h a k cur v = Inr (h, None)"
  by (simp add: accessor_write_def)

lemma accessor_write_result:
  assumes "accessor_write n h a k cur v = Inr (h', w)" and "\<not> strict_eq cur v" and "h a \<noteq> None"
  shows "w = Some (k, v, cur) \<and> get_prop h' a k = v \<and> tracked h' a k
    \<and> values_of h' = values_of (put_prop h a k (Accessor v))"
proof -
  let ?hp = "put_prop h a k (Accessor v)"
  from assms(1,2) have w: "w = Some (k, v, cur)"
    and o: "(if isObject v then observe n ?hp v else Inr ?hp) = Inr h'"
    by (auto simp: accessor_write_def split: sum.splits)
  from assms(3) have g: "get_prop ?hp a k = v" by (simp add: get_put_prop)
  from assms(3) have t: "tracked ?hp a k" by (rule put_prop_tracked_same)
  have v: "values_of h' = values_of ?hp"
    using o observe_values(1) by (auto split: if_splits)
  have "tracked h' a k" using o t observe_tracked_mono(1) by (auto split: if_splits)
  with w g v show ?thesis by (simp add: values_eq_get_prop [OF v])
qed

lemma accessor_write_returns:
  assumes "\<not> strict_eq cur v"
    and "isObject v \<longrightarrow> ranked r (put_prop h a k (Accessor v)) \<and> fits r n v"
  shows "\<exists>h'. accessor_write n h a k cur v = Inr (h', Some (k, v, cur))"
proof (cases "isObject v")
  case True
  with assms(2) observe_total(1) [of r "put_prop h a k (Accessor v)" n v]
  obtain h' where "observe n (put_prop h a k (Accessor v)) v = Inr h'" by blast
  with assms(1) True show ?thesis by (simp add: accessor_write_def)
next
  case False
  with assms(1) show ?thesis by (simp add: accessor_write_def)
qed

text \<open>
  Claim C3, as amended. On a tracked key, a write of a value that is \<open>===\<close> to the current
  one changes nothing and does not call the callback. A write of any other value (when it
  is an object, one whose graph is acyclic and no deeper than the stack) stores the value
  and then calls the callback, once, with the key, the new and the old value; what the
  write returns is what that call returns. Writing a second time a value that is \<open>===\<close> to
  itself changes nothing and calls nothing. \<open>NaN\<close> is not such a value.
\<close>

theorem observed_write:
  assumes "tracked h a k"
  shows "(strict_eq (get_prop h a k) v \<longrightarrow> assign n cb h s a k v = Inr (h, s))
    \<and> (\<not> strict_eq (get_prop h a k) v
         \<and> (isObject v \<longrightarrow> ranked r (put_prop h a k (Accessor v)) \<and> fits r n v) \<longrightarrow>
       (\<exists>h'. get_prop h' a k = v \<and> tracked h' a k
          \<and> assign n cb h s a k v =
              (case cb k v (get_prop h a k) h' s of Inl e \<Rightarrow> Inl e | Inr s' \<Rightarrow> Inr (h', s'))))
    \<and> (strict_eq v v \<longrightarrow>
         (\<forall>h1 s1. assign n cb h s a k v = Inr (h1, s1) \<longrightarrow> assign n cb h1 s1 a k v = Inr (h1, s1)))"
proof -
  let ?cur = "get_prop h a k"
  from tracked_cell [OF assms] have ha: "h a \<noteq> None" by auto
  have 1: "assign n cb h s a k v = Inr (h, s)" if "strict_eq ?cur v"
    using that by (simp add: assign_tracked [OF assms] accessor_write_same)
  have 2: "\<exists>h'. get_prop h' a k = v \<and> tracked h' a k
          \<and> assign n cb h s a k v =
              (case cb k v ?cur h' s of Inl e \<Rightarrow> Inl e | Inr s' \<Rightarrow> Inr (h', s'))"
    if d: "\<not> strict_eq ?cur v"
      and o: "isObject v \<longrightarrow> ranked r (put_prop h a k (Accessor v)) \<and> fits r n v"
  proof -
    from accessor_write_returns [OF d o] obtain h' where
      w: "accessor_write n h a k ?cur v = Inr (h', Some (k, v, ?cur))" by blast
    from accessor_write_result [OF w d ha] have "get_prop h' a k = v" "tracked h' a k" by simp_all
    moreover from w have "assign n cb h s a k v =
        (case cb k v ?cur h' s of Inl e \<Rightarrow> Inl e | Inr s' \<Rightarrow> Inr (h', s'))"
      by (simp add: assign_tracked [OF assms])
    ultimately show ?thesis by blast
  qed
  have 3: "assign n cb h1 s1 a k v = Inr (h1, s1)"
    if vv: "strict_eq v v" and r: "assign n cb h s a k v = Inr (h1, s1)" for h1 s1
  proof (cases "strict_eq ?cur v")
    case True
    with 1 r show ?thesis by simp
  next
    case False
    from r obtain w where w: "accessor_write n h a k ?cur v = Inr (h1, w)"
      by (auto simp: assign_tracked [OF assms] split: sum.splits option.splits)
    from accessor_write_result [OF w False ha]
    have g: "get_prop h1 a k = v" and t: "tracked h1 a k" by simp_all
    from vv g show ?thesis
      by (simp add: assign_tracked [OF t] accessor_write_same)
  qed
  from 1 2 3 show ?thesis by blast
qed

text \<open>
  Claim C3 as stated fails for \<open>NaN\<close>: written twice in a row, it calls the callback
  twice, the second time with \<open>NaN\<close> as the old value as well.
\<close>

theorem nan_written_twice_counterexample:
  "assign 0 (\<lambda>k nv ov h s. Inr (s @ [(k, nv, ov)]))
      [0 \<mapsto> [(''x'', Accessor (VNum 0))]] [] 0 ''x'' VNaN
     = Inr ([0 \<mapsto> [(''x'', Accessor VNaN)]], [(''x'', VNaN, VNum 0)])
   \<and> assign 0 (\<lambda>k nv ov h s. Inr (s @ [(k, nv, ov)]))
      [0 \<mapsto> [(''x'', Accessor VNaN)]] [(''x'', VNaN, VNum 0)] 0 ''x'' VNaN
     = Inr ([0 \<mapsto> [(''x'', Accessor VNaN)]], [(''x'', VNaN, VNum 0), (''x'', VNaN, VNaN)])"
  by (simp add: assign_def accessor_write_def strict_eq_def put_prop_def)

text \<open>
  Without a rank there is no result: on an object that holds itself, \<open>observe\<close> uses up
  any stack.
\<close>

lemma observe_cycle_overflows:
  "own_keys h a = [k] \<Longrightarrow> get_prop h a k = VRef a \<Longrightarrow> observe n h (VRef a) = Inl stack_overflow"
  by (induction n) auto

theorem observed_write_witness:
  "tracked [0 \<mapsto> [(''x'', Accessor (VNum 0))], 1 \<mapsto> [(''y'', Plain (VNum 2))]] 0 ''x''
   \<and> assign 0 (\<lambda>k nv ov h s. Inr (s @ [(k, nv, ov)]))
        [0 \<mapsto> [(''x'', Accessor (VNum 0))], 1 \<mapsto> [(''y'', Plain (VNum 2))]] [] 0 ''x'' (VNum 0)
      = Inr ([0 \<mapsto> [(''x'', Accessor (VNum 0))], 1 \<mapsto> [(''y'', Plain (VNum 2))]], [])
   \<and> (\<exists>h'. get_prop h' 0 ''x'' = VNum 1 \<and> tracked h' 0 ''x''
        \<and> assign 0 (\<lambda>k nv ov h s. Inr (s @ [(k, nv, ov)]))
             [0 \<mapsto> [(''x'', Accessor (VNum 0))], 1 \<mapsto> [(''y'', Plain (VNum 2))]] [] 0 ''x'' (VNum 1)
           = Inr (h', [(''x'', VNum 1, VNum 0)]))
   \<and> (\<exists>h'. get_prop h' 0 ''x'' = VRef 1 \<and> tracked h' 0 ''x''
        \<and> assign 1 (\<lambda>k nv ov h s. Inr (s @ [(k, nv, ov)]))
             [0 \<mapsto> [(''x'', Accessor (VNum 0))], 1 \<mapsto> [(''y'', Plain (VNum 2))]] [] 0 ''x'' (VRef 1)
           = Inr (h', [(''x'', VRef 1, VNum 0)]))
   \<and> assign 0 (\<lambda>k nv ov h s. Inr (s @ [(k, nv, ov)]))
        [1 \<mapsto> [(''y'', Plain (VNum 2))], 0 \<mapsto> [(''x'', Accessor (VNum 1))]]
        [(''x'', VNum 1, VNum 0)] 0 ''x'' (VNum 1)
      = Inr ([1 \<mapsto> [(''y'', Plain (VNum 2))], 0 \<mapsto> [(''x'', Accessor (VNum 1))]],
             [(''x'', VNum 1, VNum 0)])"
proof -
  define h0 :: store where "h0 = [0 \<mapsto> [(''x'', Accessor (VNum 0))], 1 \<mapsto> [(''y'', Plain (VNum 2))]]"
  define h1 :: store where "h1 = [1 \<mapsto> [(''y'', Plain (VNum 2))], 0 \<mapsto> [(''x'', Accessor (VNum 1))]]"
  define cb :: "(string \<times> jsval \<times> jsval) list callback"
    where "cb = (\<lambda>k nv ov h s. Inr (s @ [(k, nv, ov)]))"
  define r :: "addr \<Rightarrow> nat" where "r = (\<lambda>a. if a = 0 then 1 else 0)"
  have t: "tracked h0 0 ''x''" by (simp add: tracked_def h0_def)
  have g: "get_prop h0 0 ''x'' = VNum 0" by (simp add: get_prop_def h0_def)
  have same: "strict_eq (get_prop h0 0 ''x'') (VNum 0)" by (simp add: g strict_eq_def)
  have diff1: "\<not> strict_eq (get_prop h0 0 ''x'') (VNum 1)
      \<and> (isObject (VNum 1) \<longrightarrow> ranked r (put_prop h0 0 ''x'' (Accessor (VNum 1))) \<and> fits r 0 (VNum 1))"
    by (simp add: g strict_eq_def)
  have rk: "ranked r (put_prop h0 0 ''x'' (Accessor (VRef 1)))"
    by (auto simp: ranked_def put_prop_def h0_def r_def split: if_splits)
  have diff2: "\<not> strict_eq (get_prop h0 0 ''x'') (VRef 1)
      \<and> (isObject (VRef 1) \<longrightarrow> ranked r (put_prop h0 0 ''x'' (Accessor (VRef 1))) \<and> fits r 1 (VRef 1))"
    using rk by (simp add: g strict_eq_def fits_def r_def)
  have first: "assign 0 cb h0 [] 0 ''x'' (VNum 1) = Inr (h1, [(''x'', VNum 1, VNum 0)])"
    by (simp add: assign_def accessor_write_def strict_eq_def put_prop_def h0_def h1_def cb_def)
  have vv: "strict_eq (VNum 1) (VNum 1)" by (simp add: strict_eq_def)
  from observed_write [OF t, of "VNum 0" 0 cb "[]" r] same
  have a: "assign 0 cb h0 [] 0 ''x'' (VNum 0) = Inr (h0, [])" by blast
  from observed_write [OF t, of "VNum 1" 0 cb "[]" r] diff1 g
  have b: "\<exists>h'. get_prop h' 0 ''x'' = VNum 1 \<and> tracked h' 0 ''x''
        \<and> assign 0 cb h0 [] 0 ''x'' (VNum 1) = Inr (h', [(''x'', VNum 1, VNum 0)])"
    by (simp add: cb_def)
  from observed_write [OF t, of "VRef 1" 1 cb "[]" r] diff2 g
  have c: "\<exists>h'. get_prop h' 0 ''x'' = VRef 1 \<and> tracked h' 0 ''x''
        \<and> assign 1 cb h0 [] 0 ''x'' (VRef 1) = Inr (h', [(''x'', VRef 1, VNum 0)])"
    by (simp add: cb_def)
  from observed_write [OF t, of "VNum 1" 0 cb "[]" r] vv first
  have d: "assign 0 cb h1 [(''x'', VNum 1, VNum 0)] 0 ''x'' (VNum 1)
      = Inr (h1, [(''x'', VNum 1, VNum 0)])" by blast
  from t a b c d show ?thesis unfolding h0_def h1_def cb_def by blast
qed

section \<open>Properties of the template engine\<close>




























lemmas ev_simps = render_def compile_def cache_lookup_def inherited_def object_prototype_keys_def
  new_template_def tokenize.simps match_at_def strip_prefix_def is_space_def
  is_line_terminator_def trim_def run_renderer_def eval_identifier_def Let_def



lemma cache_ok_compile: "cache_ok te \<Longrightarrow> cache_ok (snd (compile te t))"
  by (auto simp: cache_ok_def compile_def Let_def split: option.splits)





text \<open>
  A template whose whole text is the name of a member of \<open>Object.prototype\<close> is never
  compiled: the cache, a plain object, already answers for that name.
\<close>

lemma render_constructor:
  "fst (render ev (new_template ''{{'' ''}}'') ''constructor'' D) = Foreign (VNative ''constructor'')"
  by (simp add: ev_simps)


section \<open>Properties of the component\<close>






















lemmas template_simps = render_def compile_def cache_lookup_def inherited_def
  object_prototype_keys_def new_template_def tokenize.simps match_at_def strip_prefix_def
  is_space_def is_line_terminator_def trim_def run_renderer_def eval_identifier_def Let_def
  render_html_def render_console_def digits.simps digit_char_def

lemmas kiwi_simps = kiwi_new_def setupReactivity_def setupWatchers.simps kiwi_watch_def
  emitter_on_def emitter_off_def emitter_emit_def call_hook_def renderTemplate_def
  template_data_def get_prop_def put_prop_def own_keys_def on_change_def kiwi_assign_def
  assign_def accessor_write_def strict_eq_def set_key_def kiwi_set_def kiwi_get_def
  unwatch_def kiwi_destroy_def kiwi_nextTick_def call_foreign_def null_error_def
  mounted_def tracked_def identifiers_def function_scope_def instance_members_def
  add_member_def callbacks_for_def hook_effect_def cycle_def renders_def


text \<open>The example components are what the constructor returns.\<close>

lemma two_keys_constructed:
  "kiwi_new 1 identifiers Map.empty 0 (Some []) two_keys_options = Inr two_keys"
  by (simp add: kiwi_simps template_simps two_keys_options_def two_keys_def two_keys_engine_def
      eval_nat_numeral)

lemma doubling_constructed:
  "kiwi_new 1 identifiers Map.empty 0 (Some []) doubling_options = Inr doubling"
  by (simp add: kiwi_simps template_simps doubling_options_def doubling_def doubling_engine_def
      double_def eval_nat_numeral)

lemma nested_constructed:
  "kiwi_new 2 identifiers [1 \<mapsto> [(''name'', Plain (VStr ''ann''))]] 0 (Some []) nested_options
     = Inr nested"
  by (simp add: kiwi_simps template_simps nested_options_def nested_def nested_engine_def
      eval_nat_numeral fun_eq_iff)

lemma undefined_key_constructed:
  "kiwi_new 1 identifiers Map.empty 0 (Some []) undefined_key_options = Inr undefined_key"
  by (simp add: kiwi_simps template_simps undefined_key_options_def undefined_key_def
      undefined_key_engine_def eval_nat_numeral)




lemma assign_untracked:
  assumes "\<not> tracked h d key" and "get_prop h d key = VUndefined" and "h d \<noteq> None"
  shows "assign n cb h s d key v = Inr (put_prop h d key (Plain v), s)"
proof -
  from assms(3) obtain ob where ob: "h d = Some ob" by auto
  show ?thesis
  proof (cases "map_of ob key")
    case None
    with assms(2) ob have "key \<noteq> ''__proto__''"
      by (auto simp: get_prop_def inherited_def)
    with None ob show ?thesis by (simp add: assign_def)
  next
    case (Some p)
    with assms(1) ob obtain old where "p = Plain old"
      by (cases p) (auto simp: tracked_def)
    with Some ob show ?thesis by (simp add: assign_def)
  qed
qed





text \<open>
  Under the name of a member of the classes the proxy of that branch takes the place of the
  member: the call returns, and the component it leaves is outside the embedding.
\<close>

lemma set_member_key:
  assumes "mounted c opts d cs te t" and "store c d \<noteq> None"
    and "get_prop (store c) d key = VUndefined" and "\<not> tracked (store c) d key"
    and "key \<in> set instance_members"
    and "ranked r (put_prop (store c) d key (Plain v))" and "r d < n"
  shows "set_key n ev c key v = Inl (Unrepresented key)"
proof -
  from assms(1) have d: "data c = Some d" and o: "observer c = Some ()"
    by (simp_all add: mounted_def)
  from assms(7) have f: "fits r n (VRef d)" by (simp add: fits_def)
  have a: "kiwi_assign n ev c d key v = Inr (c\<lparr>store := put_prop (store c) d key (Plain v)\<rparr>)"
    by (simp add: kiwi_assign_def assign_untracked [OF assms(4,3,2)])
  from observe_total(1) [OF assms(6) f] obtain h' where
    "observe n (put_prop (store c) d key (Plain v)) (VRef d) = Inr h'" by blast
  with a show ?thesis using assms(5) by (simp add: set_key_def d assms(3) o add_member_def)
qed





lemma listeners_of_watch:
  "listeners_of (fst (kiwi_watch c key callback)) = listeners_of c @ [Watcher (closures c) key callback]"
  "snd (kiwi_watch c key callback) = Watcher (closures c) key callback"
  "closures (fst (kiwi_watch c key callback)) = Suc (closures c)"
  by (simp_all add: kiwi_watch_def emitter_on_def listeners_of_def Let_def update_conv'
      split: option.splits)

lemma listeners_of_unwatch:
  "listeners_of (unwatch c w) = filter (\<lambda>l. l \<noteq> w) (listeners_of c)"
  by (simp add: unwatch_def emitter_off_def listeners_of_def update_conv' split: option.splits)

lemma unwatch_twice: "unwatch (unwatch c w) w = unwatch c w"
  by (simp add: unwatch_def emitter_off_def update_conv' split: option.splits)

lemma callbacks_for_listeners:
  "callbacks_for (events c) key = concat (map (watcher_for key) (listeners_of c))"
  by (simp add: callbacks_for_def listeners_of_def)

lemma fresh_not_registered:
  "closures_fresh c \<Longrightarrow> Watcher (closures c) key callback \<notin> set (listeners_of c)"
  by (auto simp: closures_fresh_def list_all_iff)

lemma closures_fresh_watch: "closures_fresh c \<Longrightarrow> closures_fresh (fst (kiwi_watch c key callback))"
  by (auto simp: closures_fresh_def listeners_of_watch list_all_iff)

lemma closures_fresh_unwatch: "closures_fresh c \<Longrightarrow> closures_fresh (unwatch c w)"
proof -
  have "closures (unwatch c w) = closures c" by (simp add: unwatch_def)
  then show "closures_fresh c \<Longrightarrow> closures_fresh (unwatch c w)"
    by (auto simp: closures_fresh_def listeners_of_unwatch list_all_iff)
qed

lemma filter_absent: "w \<notin> set ls \<Longrightarrow> filter (\<lambda>l. l \<noteq> w) ls = ls"
  by (induction ls) auto

text \<open>
  Claim C8. Every call of \<open>watch\<close> creates a new closure, so in a component whose
  listeners all come from earlier calls the new listener is none of them. The function it
  returns removes that listener and nothing else: the listeners are again those before the
  call, in their order; in any component it removes only the listeners equal to that
  closure; a second call changes nothing; and a second registration of the same key and
  callback is another closure, which stays registered and keeps being called.
\<close>

theorem unwatch_precise:
  assumes "closures_fresh c"
  shows "listeners_of (fst (kiwi_watch c key callback)) = listeners_of c @ [snd (kiwi_watch c key callback)]
    \<and> snd (kiwi_watch c key callback) \<notin> set (listeners_of c)
    \<and> closures_fresh (fst (kiwi_watch c key callback))
    \<and> listeners_of (unwatch (fst (kiwi_watch c key callback)) (snd (kiwi_watch c key callback)))
        = listeners_of c
    \<and> (\<forall>c'. listeners_of (unwatch c' (snd (kiwi_watch c key callback)))
          = filter (\<lambda>l. l \<noteq> snd (kiwi_watch c key callback)) (listeners_of c'))
    \<and> (\<forall>c'. unwatch (unwatch c' (snd (kiwi_watch c key callback))) (snd (kiwi_watch c key callback))
          = unwatch c' (snd (kiwi_watch c key callback)))
    \<and> snd (kiwi_watch (fst (kiwi_watch c key callback)) key callback) \<noteq> snd (kiwi_watch c key callback)
    \<and> listeners_of (unwatch (fst (kiwi_watch (fst (kiwi_watch c key callback)) key callback))
                       (snd (kiwi_watch c key callback)))
        = listeners_of c @ [snd (kiwi_watch (fst (kiwi_watch c key callback)) key callback)]
    \<and> callbacks_for (events (unwatch (fst (kiwi_watch (fst (kiwi_watch c key callback)) key callback))
                                (snd (kiwi_watch c key callback)))) key
        = callbacks_for (events c) key @ [callback]"
proof -
  let ?w = "Watcher (closures c) key callback"
  from fresh_not_registered [OF assms] have n: "?w \<notin> set (listeners_of c)" .
  then have f: "filter (\<lambda>l. l \<noteq> ?w) (listeners_of c) = listeners_of c" by (rule filter_absent)
  show ?thesis
    using n f closures_fresh_watch [OF assms, of key callback]
    by (simp add: listeners_of_watch listeners_of_unwatch unwatch_twice callbacks_for_listeners)
qed

theorem unwatch_precise_witness:
  "closures_fresh two_keys
   \<and> snd (kiwi_watch two_keys ''a'' 1) = Watcher 2 ''a'' 1
   \<and> listeners_of (fst (kiwi_watch two_keys ''a'' 1))
       = [Watcher 0 ''a'' 1, Watcher 1 ''b'' 2, Watcher 2 ''a'' 1]
   \<and> listeners_of (unwatch (fst (kiwi_watch two_keys ''a'' 1)) (Watcher 2 ''a'' 1))
       = [Watcher 0 ''a'' 1, Watcher 1 ''b'' 2]
   \<and> unwatch (unwatch (fst (kiwi_watch two_keys ''a'' 1)) (Watcher 2 ''a'' 1)) (Watcher 2 ''a'' 1)
       = unwatch (fst (kiwi_watch two_keys ''a'' 1)) (Watcher 2 ''a'' 1)
   \<and> listeners_of (unwatch (fst (kiwi_watch (fst (kiwi_watch two_keys ''a'' 1)) ''a'' 1))
                      (Watcher 2 ''a'' 1))
       = [Watcher 0 ''a'' 1, Watcher 1 ''b'' 2, Watcher 3 ''a'' 1]
   \<and> callbacks_for (events (unwatch (fst (kiwi_watch (fst (kiwi_watch two_keys ''a'' 1)) ''a'' 1))
                               (Watcher 2 ''a'' 1))) ''a'' = [1, 1]"
proof -
  have f: "closures_fresh two_keys"
    by (simp add: closures_fresh_def listeners_of_def two_keys_def)
  have l: "listeners_of two_keys = [Watcher 0 ''a'' 1, Watcher 1 ''b'' 2]"
    by (simp add: listeners_of_def two_keys_def)
  have n: "closures two_keys = 2" by (simp add: two_keys_def)
  have w: "snd (kiwi_watch two_keys ''a'' 1) = Watcher 2 ''a'' 1"
    by (simp add: listeners_of_watch n)
  have w2: "snd (kiwi_watch (fst (kiwi_watch two_keys ''a'' 1)) ''a'' 1) = Watcher 3 ''a'' 1"
    by (simp add: listeners_of_watch n)
  have cb: "callbacks_for (events two_keys) ''a'' = [1]"
    by (simp add: callbacks_for_listeners l)
  note u = unwatch_precise [OF f, of "''a''" 1, unfolded w w2 l cb]
  from u have 1: "listeners_of (fst (kiwi_watch two_keys ''a'' 1))
       = [Watcher 0 ''a'' 1, Watcher 1 ''b'' 2] @ [Watcher 2 ''a'' 1]" by blast
  from u have 2: "listeners_of (unwatch (fst (kiwi_watch two_keys ''a'' 1)) (Watcher 2 ''a'' 1))
       = [Watcher 0 ''a'' 1, Watcher 1 ''b'' 2]" by blast
  from u have 3: "unwatch (unwatch (fst (kiwi_watch two_keys ''a'' 1)) (Watcher 2 ''a'' 1))
        (Watcher 2 ''a'' 1) = unwatch (fst (kiwi_watch two_keys ''a'' 1)) (Watcher 2 ''a'' 1)"
    by blast
  from u have 4: "listeners_of (unwatch (fst (kiwi_watch (fst (kiwi_watch two_keys ''a'' 1)) ''a'' 1))
                      (Watcher 2 ''a'' 1))
       = [Watcher 0 ''a'' 1, Watcher 1 ''b'' 2] @ [Watcher 3 ''a'' 1]" by blast
  from u have 5: "callbacks_for (events (unwatch (fst (kiwi_watch (fst (kiwi_watch two_keys ''a'' 1)) ''a'' 1))
                               (Watcher 2 ''a'' 1))) ''a'' = [1] @ [1]" by blast
  from f w 1 2 3 4 5 show ?thesis by simp
qed

text \<open>
  Claim C2, as amended. \<open>destroy\<close> sets the references to \<open>null\<close> and installs no
  guard. Afterwards \<open>set\<close> with a key, or with a mapping that has an entry, and \<open>get\<close> with
  a key throw the \<open>TypeError\<close> of reading a property of \<open>null\<close>; \<open>set\<close> with an empty
  mapping returns; \<open>get\<close> without a key returns \<open>null\<close>; \<open>watch\<close> registers its listener
  in the emptied registry; \<open>nextTick\<close> sets its timer.
\<close>

theorem after_destroy:
  assumes "kiwi_destroy c = Inr c1"
  shows "kiwi_set n ev c1 (Key key v) = Inl (null_error key)
    \<and> kiwi_set n ev c1 (Mapping ((key, v) # m)) = Inl (null_error key)
    \<and> kiwi_set n ev c1 (Mapping []) = Inr c1
    \<and> (key \<noteq> [] \<longrightarrow> kiwi_get c1 (Some key) = Inl (null_error key))
    \<and> kiwi_get c1 None = Inr VNull \<and> kiwi_get c1 (Some []) = Inr VNull
    \<and> listeners_of (fst (kiwi_watch c1 key callback)) = [snd (kiwi_watch c1 key callback)]
    \<and> timers (kiwi_nextTick c1 task) = timers c1 @ [task]"
proof -
  from assms have d: "data c1 = None" and e: "events c1 = []"
    by (auto simp: kiwi_destroy_def call_hook_def split: option.splits if_splits)
  from e have l: "listeners_of c1 = []" by (simp add: listeners_of_def)
  show ?thesis
    using d l by (simp add: kiwi_set_def set_key_def kiwi_get_def kiwi_nextTick_def listeners_of_watch)
qed

text \<open>
  Claim C2 as stated fails: after \<open>destroy\<close>, \<open>get()\<close> returns \<open>null\<close>, \<open>get('a')\<close>
  fails on the \<open>null\<close> reference, and \<open>watch\<close> succeeds.
\<close>

theorem after_destroy_counterexample:
  "kiwi_destroy two_keys = Inr destroyed_two_keys
   \<and> kiwi_get destroyed_two_keys None = Inr VNull
   \<and> kiwi_get destroyed_two_keys (Some ''a'') = Inl (null_error ''a'')
   \<and> events (fst (kiwi_watch destroyed_two_keys ''a'' 3)) = [(''dataChange'', [Watcher 2 ''a'' 3])]"
  by (simp add: kiwi_simps destroyed_two_keys_def two_keys_def two_keys_options_def Let_def)

theorem after_destroy_witness:
  "kiwi_destroy two_keys = Inr destroyed_two_keys
   \<and> kiwi_set 0 identifiers destroyed_two_keys (Key ''a'' (VNum 1)) = Inl (null_error ''a'')
   \<and> kiwi_set 0 identifiers destroyed_two_keys (Mapping [(''a'', VNum 1), (''b'', VNum 2)])
       = Inl (null_error ''a'')
   \<and> kiwi_set 0 identifiers destroyed_two_keys (Mapping []) = Inr destroyed_two_keys
   \<and> kiwi_get destroyed_two_keys (Some ''a'') = Inl (null_error ''a'')
   \<and> kiwi_get destroyed_two_keys None = Inr VNull
   \<and> kiwi_get destroyed_two_keys (Some []) = Inr VNull
   \<and> listeners_of (fst (kiwi_watch destroyed_two_keys ''a'' 3)) = [Watcher 2 ''a'' 3]
   \<and> timers (kiwi_nextTick destroyed_two_keys (Some 4)) = [Some 4]"
proof -
  have d: "kiwi_destroy two_keys = Inr destroyed_two_keys"
    by (simp add: kiwi_simps destroyed_two_keys_def two_keys_def two_keys_options_def)
  have w: "snd (kiwi_watch destroyed_two_keys ''a'' 3) = Watcher 2 ''a'' 3"
    by (simp add: listeners_of_watch destroyed_two_keys_def two_keys_def)
  have t: "timers destroyed_two_keys = []" by (simp add: destroyed_two_keys_def two_keys_def)
  have k: "''a'' \<noteq> []" by simp
  from after_destroy [OF d, of 0 identifiers "''a''" "VNum 1" "[(''b'', VNum 2)]" 3 "Some 4"]
    d w t k
  show ?thesis by simp
qed

end
